theory Spec2Isabelle
  imports Complex_Main
begin

section \<open>MEPS weights: schema extraction and stratum aggregation (meps.go)\<close>

text \<open>
  A shallow embedding of \<^verbatim>\<open>getvinf\<close> (with its closure \<^verbatim>\<open>process\<close>) and of
  \<^verbatim>\<open>getpopw\<close> (with its closure \<^verbatim>\<open>ext\<close> and the loop body that classifies one
  record).

  Conventions of the embedding.
  \<^item> A Go \<^verbatim>\<open>string\<close> is a \<^typ>\<open>string\<close> of bytes; the files read are ASCII text, so the
    white space of \<^verbatim>\<open>strings.Fields\<close> is the six ASCII white-space bytes.
  \<^item> A Go \<^verbatim>\<open>int\<close> is a 64-bit signed integer, embedded in \<^typ>\<open>int\<close> with the
    wrap-around of \<^verbatim>\<open>-\<close> and \<^verbatim>\<open>+\<close> written out (\<open>int64\<close>).
  \<^item> A \<^verbatim>\<open>float64\<close> is embedded as a \<^typ>\<open>real\<close>: decoded values are finite; NaN and
    the infinities are not represented.  The arithmetic of the classification is taken
    to be exact (it is on the integer codes that the classification reads).  The
    addition that accumulates the weights, \<^verbatim>\<open>sampsize[stratum] += wgt\<close>, rounds its
    result: it is a parameter \<open>fadd\<close> of the functions that reach it, and nothing is
    assumed of it.
  \<^item> A \<^verbatim>\<open>panic\<close>, whether raised by \<^verbatim>\<open>panic(err)\<close> or by the runtime, is a result
    \<open>Inl e\<close>; a normal return is \<open>Inr v\<close>.
  \<^item> \<^verbatim>\<open>strconv.ParseFloat\<close> is a parameter \<open>pf\<close> of the functions that call it
    (\<open>None\<close> is its error result).
\<close>

subsection \<open>Errors\<close>

datatype error =
    IndexOutOfRange        \<comment> \<open>runtime panic: index out of range\<close>
  | SliceBounds            \<comment> \<open>runtime panic: slice bounds out of range\<close>
  | NumError               \<comment> \<open>\<^verbatim>\<open>*strconv.NumError\<close>: invalid syntax or value out of range\<close>
  | ErrInvalid             \<comment> \<open>\<^verbatim>\<open>os.ErrInvalid\<close>: invalid argument\<close>
  | PathError string       \<comment> \<open>\<^verbatim>\<open>os.Open\<close> failed on the named file\<close>
  | GzipError              \<comment> \<open>\<^verbatim>\<open>gzip\<close>: invalid header, checksum or stream\<close>
  | ReadError              \<comment> \<open>the underlying reader failed\<close>

subsection \<open>Go integers\<close>

definition int64 :: "int \<Rightarrow> int" where
  "int64 x = (x + 2 ^ 63) mod 2 ^ 64 - 2 ^ 63"

subsection \<open>The functions of package strings and strconv that the program calls\<close>

definition isSpace :: "char \<Rightarrow> bool" where
  "isSpace c = ((of_char c :: nat) \<in> {9, 10, 11, 12, 13, 32})"

text \<open>\<^verbatim>\<open>strings.Fields\<close>: the maximal runs of non-space bytes, in order.\<close>

fun fields_from :: "string \<Rightarrow> string \<Rightarrow> string list" where
  "fields_from cur [] = (if cur = [] then [] else [rev cur])"
| "fields_from cur (c # cs) =
     (if isSpace c
      then (if cur = [] then fields_from [] cs else rev cur # fields_from [] cs)
      else fields_from (c # cur) cs)"

definition Fields :: "string \<Rightarrow> string list" where
  "Fields s = fields_from [] s"

text \<open>\<^verbatim>\<open>strings.TrimLeft(s, cutset)\<close>: \<open>s\<close> without its leading bytes that are in \<open>cutset\<close>.\<close>

definition TrimLeft :: "string \<Rightarrow> string \<Rightarrow> string" where
  "TrimLeft s cutset = dropWhile (\<lambda>c. c \<in> set cutset) s"

definition HasPrefix :: "string \<Rightarrow> string \<Rightarrow> bool" where
  "HasPrefix s p = (take (length p) s = p)"

fun Contains :: "string \<Rightarrow> string \<Rightarrow> bool" where
  "Contains [] sub = (sub = [])"
| "Contains (c # cs) sub = (HasPrefix (c # cs) sub \<or> Contains cs sub)"

text \<open>\<^verbatim>\<open>strings.Split(s, sep)\<close> for a separator of one byte, the only use in the program.\<close>

fun Split :: "string \<Rightarrow> char \<Rightarrow> string list" where
  "Split [] sep = [[]]"
| "Split (c # cs) sep =
     (if c = sep then [] # Split cs sep
      else (case Split cs sep of [] \<Rightarrow> [[c]] | t # ts \<Rightarrow> (c # t) # ts))"

definition isDigit :: "char \<Rightarrow> bool" where
  "isDigit c = (48 \<le> (of_char c :: nat) \<and> (of_char c :: nat) \<le> 57)"

definition digits_value :: "string \<Rightarrow> int" where
  "digits_value ds = foldl (\<lambda>n c. n * 10 + (int (of_char c) - 48)) 0 ds"

text \<open>
  \<^verbatim>\<open>strconv.Atoi\<close>: an optional sign, then one or more decimal digits whose value
  fits 64 bits; an error otherwise.
\<close>

definition Atoi :: "string \<Rightarrow> error + int" where
  "Atoi s =
     (let neg = (s \<noteq> [] \<and> hd s = CHR ''-'');
          ds = (if s \<noteq> [] \<and> (hd s = CHR ''-'' \<or> hd s = CHR ''+'') then tl s else s)
      in if ds = [] \<or> \<not> list_all isDigit ds then Inl NumError
         else let n = digits_value ds
              in if neg then (if n \<le> 2 ^ 63 then Inr (- n) else Inl NumError)
                 else (if n < 2 ^ 63 then Inr n else Inl NumError))"

text \<open>
  A slice expression \<^verbatim>\<open>s[lo:hi]\<close>; the runtime panics unless
  \<open>0 \<le> lo \<le> hi \<le> len(s)\<close>.
\<close>

definition slice :: "string \<Rightarrow> int \<Rightarrow> int \<Rightarrow> error + string" where
  "slice s lo hi =
     (if 0 \<le> lo \<and> lo \<le> hi \<and> hi \<le> int (length s)
      then Inr (take (nat (hi - lo)) (drop (nat lo) s))
      else Inl SliceBounds)"

subsection \<open>getvinf: the schema extractor\<close>

type_synonym vdef = "string \<rightharpoonup> (int \<times> int)"

text \<open>The closure \<^verbatim>\<open>process\<close>: the variable description of one descriptor line.\<close>

definition process :: "string \<Rightarrow> vdef \<Rightarrow> error + vdef" where
  "process line vd =
     (let toks = Fields line in
      if length toks \<le> 1 then Inl IndexOutOfRange
      else
        let vname = toks ! 1;
            pos = TrimLeft (toks ! 0) ''@''
        in case Atoi pos of
             Inl e \<Rightarrow> Inl e
           | Inr ipos0 \<Rightarrow>
               let ipos = int64 (ipos0 - 1) in
               if length toks \<le> 2 then Inl IndexOutOfRange
               else
                 let w0 = TrimLeft (toks ! 2) ''$'';
                     w = (if Contains w0 ''.'' then hd (Split w0 (CHR ''.'')) else w0)
                 in case Atoi w of
                      Inl e \<Rightarrow> Inl e
                    | Inr iw \<Rightarrow> Inr (vd(vname \<mapsto> (ipos, iw))))"

text \<open>
  The first loop: skip the initial section; the line that contains the marker is
  processed without its first five bytes, and the loop ends there.  The result is the
  map and the lines not yet scanned.
\<close>

fun skip_initial :: "string list \<Rightarrow> vdef \<Rightarrow> error + (vdef \<times> string list)" where
  "skip_initial [] vd = Inr (vd, [])"
| "skip_initial (line # rest) vd =
     (if Contains line ''INPUT @1''
      then (case slice line 5 (int (length line)) of
              Inl e \<Rightarrow> Inl e
            | Inr s \<Rightarrow> (case process s vd of
                         Inl e \<Rightarrow> Inl e
                       | Inr vd' \<Rightarrow> Inr (vd', rest)))
      else skip_initial rest vd)"

text \<open>The second loop: one descriptor per line, up to a line that starts with \<open>;\<close>.\<close>

fun scan_descriptors :: "string list \<Rightarrow> vdef \<Rightarrow> error + vdef" where
  "scan_descriptors [] vd = Inr vd"
| "scan_descriptors (line # rest) vd =
     (if HasPrefix line '';'' then Inr vd
      else (case slice line 5 (int (length line)) of
              Inl e \<Rightarrow> Inl e
            | Inr s \<Rightarrow> (case process s vd of
                         Inl e \<Rightarrow> Inl e
                       | Inr vd' \<Rightarrow> scan_descriptors rest vd')))"

text \<open>
  \<^verbatim>\<open>getvinf\<close> on the lines that the scanner delivers from the SAS statements file of
  the year (the file is taken as opened and read without an I/O error).
\<close>

definition getvinf :: "string list \<Rightarrow> error + vdef" where
  "getvinf doc =
     (case skip_initial doc Map.empty of
        Inl e \<Rightarrow> Inl e
      | Inr (vd, rest) \<Rightarrow> scan_descriptors rest vd)"

subsection \<open>getpopw: the record classifier and the aggregator\<close>

text \<open>\<^verbatim>\<open>fmt.Sprintf("%d", year)\<close>.\<close>

definition digit_char :: "nat \<Rightarrow> char" where
  "digit_char n = ''0123456789'' ! n"

fun nat_digits :: "nat \<Rightarrow> string" where
  "nat_digits n =
     (if n < 10 then [digit_char n] else nat_digits (n div 10) @ [digit_char (n mod 10)])"

declare nat_digits.simps [simp del]

definition Sprintf_d :: "int \<Rightarrow> string" where
  "Sprintf_d i = (if i < 0 then CHR ''-'' # nat_digits (nat (- i)) else nat_digits (nat i))"

text \<open>The table \<^verbatim>\<open>wgtvar\<close>; a year that is not a key reads as the empty string.\<close>

definition wgtvar :: "int \<Rightarrow> string" where
  "wgtvar year =
     (if year = 2009 then ''PERWT09F'' else if year = 2010 then ''PERWT10F''
      else if year = 2011 then ''PERWT11F'' else if year = 2012 then ''PERWT12F''
      else if year = 2013 then ''PERWT13F'' else if year = 2014 then ''PERWT14F''
      else if year = 2015 then ''PERWT15P'' else [])"

text \<open>
  The closure \<^verbatim>\<open>ext\<close>: the value of one variable of one record.  A name that is not
  in the map reads as the pair \<open>(0, 0)\<close>.
\<close>

definition ext :: "(string \<Rightarrow> real option) \<Rightarrow> vdef \<Rightarrow> string \<Rightarrow> string \<Rightarrow> error + real" where
  "ext pf vd line vname =
     (let u = (case vd vname of None \<Rightarrow> (0, 0) | Some p \<Rightarrow> p);
          start = fst u;
          end = int64 (fst u + snd u)
      in case slice line start end of
           Inl e \<Rightarrow> Inl e
         | Inr t \<Rightarrow> (case pf t of None \<Rightarrow> Inl NumError | Some x \<Rightarrow> Inr x))"

text \<open>The conversion \<^verbatim>\<open>int(x)\<close> of a \<^verbatim>\<open>float64\<close>: the fraction is discarded.\<close>

definition trunc :: "real \<Rightarrow> int" where
  "trunc x = (if 0 \<le> x then \<lfloor>x\<rfloor> else \<lceil>x\<rceil>)"

text \<open>The age stratum: the \<^verbatim>\<open>switch\<close> on \<^verbatim>\<open>dobyy\<close>.\<close>

datatype age_stratum = TooOld | Age real | TooYoung

definition age_band :: "real \<Rightarrow> age_stratum" where
  "age_band dobyy =
     (if dobyy < 2009 - 65 then TooOld
      else if dobyy < 2012 - 45 then Age 1
      else if dobyy < 2012 - 18 then Age 0
      else TooYoung)"

definition stratum_of :: "real \<Rightarrow> real \<Rightarrow> real \<Rightarrow> real \<Rightarrow> int" where
  "stratum_of female emprel age region = trunc (1 + female + 2 * emprel + 4 * age + 8 * region)"

text \<open>
  The checks of the loop body after all the fields are decoded, in the order of the
  source; \<open>None\<close> is \<^verbatim>\<open>continue\<close>, \<open>Some k\<close> the index \<^verbatim>\<open>stratum\<close>.
\<close>

definition checks :: "real \<Rightarrow> real \<Rightarrow> real \<Rightarrow> real \<Rightarrow> int option" where
  "checks female dobyy region emprel =
     (if female \<noteq> 1 \<and> female \<noteq> 2 then None
      else
        let female' = female - 1 in
        case age_band dobyy of
          TooOld \<Rightarrow> None
        | TooYoung \<Rightarrow> None
        | Age age \<Rightarrow>
            if region < 0 then None
            else
              let region' = region - 1 in
              if emprel = - 1 then None
              else
                let emprel' = emprel - 1 in
                Some (stratum_of female' emprel' age region'))"

text \<open>The classification of one record from its five decoded values.\<close>

definition classify :: "real \<Rightarrow> real \<Rightarrow> real \<Rightarrow> real \<Rightarrow> real \<Rightarrow> int option" where
  "classify insur female dobyy region emprel =
     (if insur \<noteq> 1 then None else checks female dobyy region emprel)"

text \<open>
  The body of the loop over the records: one line and the vector so far; \<open>fadd\<close> is
  the \<^verbatim>\<open>float64\<close> addition of \<^verbatim>\<open>+=\<close>.
\<close>

definition record_step ::
  "(string \<Rightarrow> real option) \<Rightarrow> (real \<Rightarrow> real \<Rightarrow> real) \<Rightarrow> int \<Rightarrow> string \<Rightarrow> vdef \<Rightarrow> real list \<Rightarrow> string \<Rightarrow> error + real list"
where
  "record_step pf fadd year ys vd sampsize line =
     (case ext pf vd line (''PEGJA'' @ ys) of
        Inl e \<Rightarrow> Inl e
      | Inr insur \<Rightarrow>
          if insur \<noteq> 1 then Inr sampsize
          else
     (case ext pf vd line ''DOBYY'' of
        Inl e \<Rightarrow> Inl e
      | Inr dobyy \<Rightarrow>
     (case ext pf vd line (''REGION'' @ ys) of
        Inl e \<Rightarrow> Inl e
      | Inr region \<Rightarrow>
     (case ext pf vd line (wgtvar year) of
        Inl e \<Rightarrow> Inl e
      | Inr wgt \<Rightarrow>
     (case ext pf vd line (''HPEJA'' @ ys) of
        Inl e \<Rightarrow> Inl e
      | Inr emprel \<Rightarrow>
     (case ext pf vd line ''SEX'' of
        Inl e \<Rightarrow> Inl e
      | Inr female \<Rightarrow>
     (case checks female dobyy region emprel of
        None \<Rightarrow> Inr sampsize
      | Some stratum \<Rightarrow>
          if 0 \<le> stratum \<and> stratum < int (length sampsize)
          then Inr (sampsize[nat stratum := fadd (sampsize ! nat stratum) wgt])
          else Inl IndexOutOfRange)))))))"

fun scan_records ::
  "(string \<Rightarrow> real option) \<Rightarrow> (real \<Rightarrow> real \<Rightarrow> real) \<Rightarrow> int \<Rightarrow> string \<Rightarrow> vdef \<Rightarrow> string list \<Rightarrow> real list \<Rightarrow> error + real list"
where
  "scan_records pf fadd year ys vd [] sampsize = Inr sampsize"
| "scan_records pf fadd year ys vd (line # rest) sampsize =
     (case record_step pf fadd year ys vd sampsize line of
        Inl e \<Rightarrow> Inl e
      | Inr sampsize' \<Rightarrow> scan_records pf fadd year ys vd rest sampsize')"

text \<open>
  The data file of a year as the program meets it: the result of \<^verbatim>\<open>os.Open\<close>, and for
  a file that opens the result of \<^verbatim>\<open>gzip.NewReader\<close> on it, and for a stream with a
  valid header the lines that the scanner delivers and the error, if any, that ends
  the scan.
\<close>

type_synonym gzstream = "error + (string list \<times> error option)"
type_synonym datafile = "error + gzstream"

definition os_Open :: "datafile \<Rightarrow> gzstream option \<times> error option" where
  "os_Open dat = (case dat of Inl e \<Rightarrow> (None, Some e) | Inr f \<Rightarrow> (Some f, None))"

text \<open>
  \<^verbatim>\<open>gzip.NewReader\<close> reads the header at once; on the nil file that a failed
  \<^verbatim>\<open>os.Open\<close> returns, the read fails with \<^verbatim>\<open>os.ErrInvalid\<close>.
\<close>

definition gzip_NewReader :: "gzstream option \<Rightarrow> error + (string list \<times> error option)" where
  "gzip_NewReader hid = (case hid of None \<Rightarrow> Inl ErrInvalid | Some f \<Rightarrow> f)"

definition getpopw ::
  "(string \<Rightarrow> real option) \<Rightarrow> (real \<Rightarrow> real \<Rightarrow> real) \<Rightarrow> int \<Rightarrow> string list \<Rightarrow> datafile \<Rightarrow> error + real list"
where
  "getpopw pf fadd year doc dat =
     (case getvinf doc of
        Inl e \<Rightarrow> Inl e
      | Inr vd \<Rightarrow>
     (case slice (Sprintf_d year) 2 (int (length (Sprintf_d year))) of
        Inl e \<Rightarrow> Inl e
      | Inr ys \<Rightarrow>
          let sampsize = replicate 33 0;
              (hid, err) = os_Open dat
          in if err \<noteq> err then Inl (the err)
             else
     (case gzip_NewReader hid of
        Inl e \<Rightarrow> Inl e
      | Inr (lines, scan_err) \<Rightarrow>
     (case scan_records pf fadd year ys vd lines sampsize of
        Inl e \<Rightarrow> Inl e
      | Inr result \<Rightarrow>
     (case scan_err of
        Some e \<Rightarrow> Inl e
      | None \<Rightarrow> Inr result)))))"

subsection \<open>The stratum key of the header comment\<close>

text \<open>Go's \<^verbatim>\<open>/\<close> and \<^verbatim>\<open>%\<close> on integers: the quotient is truncated toward zero.\<close>

definition quo :: "int \<Rightarrow> int \<Rightarrow> int" where
  "quo a b = sgn a * sgn b * (\<bar>a\<bar> div \<bar>b\<bar>)"

definition rem :: "int \<Rightarrow> int \<Rightarrow> int" where
  "rem a b = a - b * quo a b"

text \<open>
  The characteristics of a stratum recovered from \<^verbatim>\<open>wgtkey\<close>, as the header comment
  of the file gives them.
\<close>

definition wgtkey_female :: "int \<Rightarrow> int" where
  "wgtkey_female wgtkey = rem (wgtkey - 1) 2"

definition wgtkey_emprel :: "int \<Rightarrow> int" where
  "wgtkey_emprel wgtkey = rem (quo (wgtkey - 1) 2) 2"

definition wgtkey_age :: "int \<Rightarrow> int" where
  "wgtkey_age wgtkey = rem (quo (wgtkey - 1) 4) 2"

definition wgtkey_region :: "int \<Rightarrow> int" where
  "wgtkey_region wgtkey = quo (wgtkey - 1) 8"

definition decode :: "int \<Rightarrow> int \<times> int \<times> int \<times> int" where
  "decode s = (wgtkey_female s, wgtkey_emprel s, wgtkey_age s, wgtkey_region s)"

text \<open>The expression of the source for \<^verbatim>\<open>stratum\<close>, on integer attributes.\<close>

definition encode :: "int \<times> int \<times> int \<times> int \<Rightarrow> int" where
  "encode t = (case t of (f, e, a, r) \<Rightarrow>
     stratum_of (real_of_int f) (real_of_int e) (real_of_int a) (real_of_int r))"

subsection \<open>What the specification says, for comparison with the code\<close>

text \<open>
  The five exclusion checks in the words of the specification: insurance equal to 1,
  sex one of 1 and 2, birth year in the eligible age band, region code at least the
  coded minimum 0, employment-relation code different from -1.
\<close>

definition spec_checks_pass :: "real \<Rightarrow> real \<Rightarrow> real \<Rightarrow> real \<Rightarrow> real \<Rightarrow> bool" where
  "spec_checks_pass insur female dobyy region emprel =
     (insur = 1 \<and> (female = 1 \<or> female = 2) \<and> 2009 - 65 \<le> dobyy \<and> dobyy < 2012 - 18
      \<and> 0 \<le> region \<and> emprel \<noteq> - 1)"

text \<open>
  The age band in the words of the specification, with the cutoffs computed from the
  reference point of the year.
\<close>

definition spec_age_band :: "real \<Rightarrow> real \<Rightarrow> age_stratum" where
  "spec_age_band referenceYear dobyy =
     (if dobyy < referenceYear - 65 then TooOld
      else if dobyy < referenceYear + 3 - 45 then Age 1
      else if dobyy < referenceYear + 3 - 18 then Age 0
      else TooYoung)"

subsection \<open>Notions used to state the properties\<close>

text \<open>
  The descriptor lines of a document: the first line that contains the marker, and the
  lines after it up to the first one that starts with \<open>;\<close>.
\<close>

definition descriptor_lines :: "string list \<Rightarrow> string list" where
  "descriptor_lines doc =
     (case dropWhile (\<lambda>l. \<not> Contains l ''INPUT @1'') doc of
        [] \<Rightarrow> []
      | m # rest \<Rightarrow> m # takeWhile (\<lambda>l. \<not> HasPrefix l '';'') rest)"

definition is_int :: "string \<Rightarrow> bool" where
  "is_int s = (case Atoi s of Inl _ \<Rightarrow> False | Inr _ \<Rightarrow> True)"

text \<open>
  A line is a well-formed descriptor when it has at least five bytes and what follows
  them has at least three fields, the first an integer after its leading \<open>@\<close>s, the
  third an integer after its leading \<open>$\<close>s and up to its first point.
\<close>

definition well_formed :: "string \<Rightarrow> bool" where
  "well_formed l =
     (5 \<le> length l \<and>
      (let toks = Fields (drop 5 l)
       in 3 \<le> length toks
          \<and> is_int (dropWhile (\<lambda>c. c = CHR ''@'') (toks ! 0))
          \<and> is_int (takeWhile (\<lambda>c. c \<noteq> CHR ''.'') (dropWhile (\<lambda>c. c = CHR ''$'') (toks ! 2)))))"





subsection \<open>A small data set for the examples\<close>

text \<open>
  Instances of the parameters for the examples: on integers below \<open>2\<^sup>5\<^sup>3\<close> the
  \<^verbatim>\<open>float64\<close> addition is exact, and on the text of a decimal integer
  \<^verbatim>\<open>strconv.ParseFloat\<close> returns that integer.  Then a schema document of six
  variables, the map that \<^verbatim>\<open>getvinf\<close> extracts from it, and two records.
\<close>

definition exact_add :: "real \<Rightarrow> real \<Rightarrow> real" where
  "exact_add x y = x + y"

definition decimal_pf :: "string \<Rightarrow> real option" where
  "decimal_pf s = (case Atoi s of Inl _ \<Rightarrow> None | Inr n \<Rightarrow> Some (real_of_int n))"


definition sample_vdef :: vdef where
  "sample_vdef =
     [''PEGJA09'' \<mapsto> (0, 1), ''DOBYY'' \<mapsto> (1, 4), ''REGION09'' \<mapsto> (5, 1),
      ''PERWT09F'' \<mapsto> (6, 4), ''HPEJA09'' \<mapsto> (10, 1), ''SEX'' \<mapsto> (11, 1)]"


section \<open>Properties\<close>

subsection \<open>Arithmetic of the stratum key and of the classifier\<close>

lemma trunc_of_int: "trunc (real_of_int k) = k"
  by (simp add: trunc_def)

lemma stratum_of_int:
  "stratum_of (real_of_int f) (real_of_int e) (real_of_int a) (real_of_int r)
     = 1 + f + 2 * e + 4 * a + 8 * r"
proof -
  have "1 + real_of_int f + 2 * real_of_int e + 4 * real_of_int a + 8 * real_of_int r
          = real_of_int (1 + f + 2 * e + 4 * a + 8 * r)"
    by simp
  then show ?thesis
    unfolding stratum_of_def by (simp only: trunc_of_int)
qed

lemma age_band_cases:
  "age_band d = (if d < 1944 then TooOld else if d < 1967 then Age 1
                 else if d < 1994 then Age 0 else TooYoung)"
  by (simp add: age_band_def)

lemma checks_some_iff:
  "checks female dobyy region emprel \<noteq> None \<longleftrightarrow>
     (female = 1 \<or> female = 2) \<and> 1944 \<le> dobyy \<and> dobyy < 1994 \<and> 0 \<le> region \<and> emprel \<noteq> - 1"
  by (auto simp: checks_def age_band_cases Let_def)

lemma classify_some_iff:
  "classify insur female dobyy region emprel \<noteq> None \<longleftrightarrow>
     spec_checks_pass insur female dobyy region emprel"
  using checks_some_iff [of female dobyy region emprel]
  by (auto simp: classify_def spec_checks_pass_def)

lemma checks_value:
  assumes "female = 1 \<or> female = 2" "age_band dobyy = Age age" "0 \<le> region" "emprel \<noteq> - 1"
  shows "checks female dobyy region emprel
           = Some (stratum_of (female - 1) (emprel - 1) age (region - 1))"
  using assms by (auto simp: checks_def Let_def)

lemma age_band_Age: "age_band d = Age a \<Longrightarrow> a = 0 \<or> a = 1"
  by (auto simp: age_band_cases split: if_splits)

lemma stratum_in_range:
  assumes f: "f = 0 \<or> f = (1::real)" and e: "e = 0 \<or> e = (1::real)" and a: "a = 0 \<or> a = (1::real)"
    and r: "r = 0 \<or> r = 1 \<or> r = 2 \<or> r = (3::real)"
  shows "1 \<le> stratum_of f e a r \<and> stratum_of f e a r \<le> 32"
proof -
  obtain fi ei ai ri :: int where
    i: "f = real_of_int fi" "e = real_of_int ei" "a = real_of_int ai" "r = real_of_int ri"
    and b: "0 \<le> fi" "fi \<le> 1" "0 \<le> ei" "ei \<le> 1" "0 \<le> ai" "ai \<le> 1" "0 \<le> ri" "ri \<le> 3"
  proof -
    have "\<exists>fi::int. f = real_of_int fi \<and> 0 \<le> fi \<and> fi \<le> 1"
      using f by (metis of_int_0 of_int_1 order_refl zero_le_one)
    moreover have "\<exists>ei::int. e = real_of_int ei \<and> 0 \<le> ei \<and> ei \<le> 1"
      using e by (metis of_int_0 of_int_1 order_refl zero_le_one)
    moreover have "\<exists>ai::int. a = real_of_int ai \<and> 0 \<le> ai \<and> ai \<le> 1"
      using a by (metis of_int_0 of_int_1 order_refl zero_le_one)
    moreover have "\<exists>ri::int. r = real_of_int ri \<and> 0 \<le> ri \<and> ri \<le> 3"
    proof -
      from r consider "r = 0" | "r = 1" | "r = 2" | "r = 3" by blast
      then show ?thesis
      proof cases
        case 1 then show ?thesis by (intro exI [of _ 0]) simp
      next
        case 2 then show ?thesis by (intro exI [of _ 1]) simp
      next
        case 3 then show ?thesis by (intro exI [of _ 2]) simp
      next
        case 4 then show ?thesis by (intro exI [of _ 3]) simp
      qed
    qed
    ultimately show ?thesis using that by blast
  qed
  show ?thesis unfolding i stratum_of_int using b by linarith
qed

lemma quo_nonneg: "0 \<le> a \<Longrightarrow> 0 < b \<Longrightarrow> quo a b = a div b"
  by (cases "a = 0") (simp_all add: quo_def)

lemma rem_nonneg: "0 \<le> a \<Longrightarrow> 0 < b \<Longrightarrow> rem a b = a mod b"
  by (simp add: rem_def quo_nonneg minus_mult_div_eq_mod)

lemma decode_nonneg:
  assumes "0 \<le> x"
  shows "decode (1 + x) = (x mod 2, x div 2 mod 2, x div 4 mod 2, x div 8)"
proof -
  have d: "0 \<le> x div 2" "0 \<le> x div 4" using assms by simp_all
  have q: "quo x 2 = x div 2" "quo x 4 = x div 4" "quo x 8 = x div 8"
    using assms by (simp_all add: quo_nonneg)
  have r: "rem x 2 = x mod 2" "rem (x div 2) 2 = x div 2 mod 2" "rem (x div 4) 2 = x div 4 mod 2"
    using assms d by (simp_all add: rem_nonneg)
  show ?thesis
    unfolding decode_def wgtkey_female_def wgtkey_emprel_def wgtkey_age_def wgtkey_region_def
    by (simp add: q r)
qed

lemma bit_cases: "(x::int) mod 2 = 0 \<or> x mod 2 = 1"
  by presburger

lemma binary_expansion:
  "1 + (x::int) mod 2 + 2 * (x div 2 mod 2) + 4 * (x div 4 mod 2) + 8 * (x div 8) = 1 + x"
proof -
  have 1: "x = 2 * (x div 2) + x mod 2" by simp
  have 2: "x div 2 = 2 * (x div 2 div 2) + x div 2 mod 2" by simp
  have 3: "x div 4 = 2 * (x div 4 div 2) + x div 4 mod 2" by simp
  have 4: "x div 2 div 2 = x div 4" "x div 4 div 2 = x div 8"
    by (simp_all add: div_mult2_eq[symmetric])
  show ?thesis using 1 2 3 4 by linarith
qed

lemma binary_digits:
  assumes "f = 0 \<or> f = (1::int)" and "e = 0 \<or> e = (1::int)" and "a = 0 \<or> a = (1::int)"
    and "r = 0 \<or> r = 1 \<or> r = 2 \<or> r = (3::int)"
  shows "(f + 2 * e + 4 * a + 8 * r) mod 2 = f" "(f + 2 * e + 4 * a + 8 * r) div 2 mod 2 = e"
    "(f + 2 * e + 4 * a + 8 * r) div 4 mod 2 = a" "(f + 2 * e + 4 * a + 8 * r) div 8 = r"
  using assms by auto

lemma decode_range:
  assumes "1 \<le> s" "s \<le> 32"
  shows "decode s \<in> {0, 1} \<times> {0, 1} \<times> {0, 1} \<times> {0, 1, 2, 3}"
proof -
  define x where "x = s - 1"
  have x: "0 \<le> x" "x \<le> 31" and s: "s = 1 + x" using assms by (simp_all add: x_def)
  have g: "x div 8 = 0 \<or> x div 8 = 1 \<or> x div 8 = 2 \<or> x div 8 = 3"
    using x by presburger
  have "x mod 2 \<in> {0, 1}" "x div 2 mod 2 \<in> {0, 1}" "x div 4 mod 2 \<in> {0, 1}"
    "x div 8 \<in> {0, 1, 2, 3}"
    using bit_cases [of x] bit_cases [of "x div 2"] bit_cases [of "x div 4"] g by simp_all
  then show ?thesis
    unfolding s decode_nonneg [OF x(1)] by (intro SigmaI)
qed

lemma encode_decode:
  assumes "1 \<le> s" "s \<le> 32"
  shows "encode (decode s) = s"
proof -
  define x where "x = s - 1"
  have x: "0 \<le> x" and s: "s = 1 + x" using assms by (simp_all add: x_def)
  show ?thesis
    unfolding s decode_nonneg [OF x] encode_def
    using binary_expansion [of x] by (simp add: stratum_of_int)
qed

lemma encode_range:
  assumes "t \<in> {0, 1} \<times> {0, 1} \<times> {0, 1} \<times> {0, 1, 2, 3}"
  shows "encode t \<in> {1..32}"
  using assms unfolding encode_def by (auto simp: stratum_of_int)

lemma decode_encode:
  assumes "t \<in> {0, 1} \<times> {0, 1} \<times> {0, 1} \<times> {0, 1, 2, 3}"
  shows "decode (encode t) = t"
proof -
  obtain f e a r where t: "t = (f, e, a, r)" by (cases t) auto
  have f: "f = 0 \<or> f = 1" and e: "e = 0 \<or> e = 1" and a: "a = 0 \<or> a = 1"
    and r: "r = 0 \<or> r = 1 \<or> r = 2 \<or> r = 3"
    using assms unfolding t by auto
  let ?x = "f + 2 * e + 4 * a + 8 * r"
  have enc: "encode t = 1 + ?x" unfolding t encode_def by (simp add: stratum_of_int)
  have x: "0 \<le> ?x" using f e a r by auto
  have "decode (encode t) = decode (1 + ?x)" by (simp only: enc)
  also have "\<dots> = (f, e, a, r)"
    unfolding decode_nonneg [OF x] by (simp only: binary_digits [OF f e a r])
  finally show ?thesis by (simp only: t)
qed

subsection \<open>Lemmas on the schema extractor\<close>

lemma Split_nonempty: "Split w c \<noteq> []"
  by (induction w) (auto split: list.splits)

lemma Split_hd: "hd (Split w c) = takeWhile (\<lambda>x. x \<noteq> c) w"
  using Split_nonempty by (induction w) (auto split: list.splits)

lemma Contains_single: "Contains w [c] \<longleftrightarrow> c \<in> set w"
  by (induction w) (auto simp: HasPrefix_def)

lemma width_digits:
  "(if Contains w ''.'' then hd (Split w (CHR ''.'')) else w) = takeWhile (\<lambda>x. x \<noteq> CHR ''.'') w"
proof (cases "CHR ''.'' \<in> set w")
  case True
  then show ?thesis by (simp add: Contains_single Split_hd)
next
  case False
  then have "takeWhile (\<lambda>x. x \<noteq> CHR ''.'') w = w"
    by (intro takeWhile_eq_all_conv [THEN iffD2]) auto
  moreover have "\<not> Contains w ''.''" using False by (simp add: Contains_single)
  ultimately show ?thesis by (simp only: if_False)
qed

lemma TrimLeft_single: "TrimLeft s [c] = dropWhile (\<lambda>x. x = c) s"
  by (simp add: TrimLeft_def)

lemma Contains_length: "Contains s sub \<Longrightarrow> length sub \<le> length s"
proof (induction s)
  case Nil
  then show ?case by simp
next
  case (Cons c cs)
  then show ?case
  proof (cases "HasPrefix (c # cs) sub")
    case True
    then have "length (take (length sub) (c # cs)) = length sub" by (simp add: HasPrefix_def)
    then show ?thesis by auto
  next
    case False
    with Cons show ?thesis by auto
  qed
qed

lemma slice_tail:
  "slice line 5 (int (length line))
     = (if 5 \<le> length line then Inr (drop 5 line) else Inl SliceBounds)"
  by (auto simp: slice_def)

lemma process_eq:
  "process line vd =
     (let toks = Fields line in
      if length toks \<le> 1 then Inl IndexOutOfRange
      else case Atoi (dropWhile (\<lambda>c. c = CHR ''@'') (toks ! 0)) of
             Inl e \<Rightarrow> Inl e
           | Inr ip \<Rightarrow>
               if length toks \<le> 2 then Inl IndexOutOfRange
               else case Atoi (takeWhile (\<lambda>c. c \<noteq> CHR ''.'')
                                 (dropWhile (\<lambda>c. c = CHR ''$'') (toks ! 2))) of
                      Inl e \<Rightarrow> Inl e
                    | Inr iw \<Rightarrow> Inr (vd(toks ! 1 \<mapsto> (int64 (ip - 1), iw))))"
  unfolding process_def Let_def width_digits TrimLeft_single ..

lemma process_fails_iff:
  "(\<exists>e. process s vd = Inl e) \<longleftrightarrow>
     \<not> (let toks = Fields s
        in 3 \<le> length toks
           \<and> is_int (dropWhile (\<lambda>c. c = CHR ''@'') (toks ! 0))
           \<and> is_int (takeWhile (\<lambda>c. c \<noteq> CHR ''.'') (dropWhile (\<lambda>c. c = CHR ''$'') (toks ! 2))))"
  unfolding process_eq Let_def is_int_def
  by (auto split: sum.splits)

lemma process_total: "(\<exists>e. process s vd = Inl e) \<or> (\<exists>vd'. process s vd = Inr vd')"
  by (cases "process s vd") auto

lemma well_formed_process:
  "well_formed line \<longleftrightarrow> 5 \<le> length line \<and> (\<exists>vd'. process (drop 5 line) vd = Inr vd')"
proof -
  have "(\<exists>vd'. process (drop 5 line) vd = Inr vd') \<longleftrightarrow> \<not> (\<exists>e. process (drop 5 line) vd = Inl e)"
    by (cases "process (drop 5 line) vd") auto
  then show ?thesis unfolding well_formed_def process_fails_iff by simp
qed

lemma scan_descriptors_fails_iff:
  "(\<exists>e. scan_descriptors ls vd = Inl e)
     \<longleftrightarrow> (\<exists>l\<in>set (takeWhile (\<lambda>l. \<not> HasPrefix l '';'') ls). \<not> well_formed l)"
proof (induction ls arbitrary: vd)
  case Nil
  then show ?case by simp
next
  case (Cons line rest)
  show ?case
  proof (cases "HasPrefix line '';''")
    case True
    then show ?thesis by simp
  next
    case semi: False
    show ?thesis
    proof (cases "well_formed line")
      case True
      then obtain vd' where p: "5 \<le> length line" "process (drop 5 line) vd = Inr vd'"
        using well_formed_process [of line vd] by blast
      then have "scan_descriptors (line # rest) vd = scan_descriptors rest vd'"
        using semi by (simp add: slice_tail)
      with Cons.IH [of vd'] semi True show ?thesis by simp
    next
      case False
      then have "length line < 5 \<or> (\<exists>e. process (drop 5 line) vd = Inl e)"
        using well_formed_process [of line vd] process_total [of "drop 5 line" vd] by auto
      then have "\<exists>e. scan_descriptors (line # rest) vd = Inl e"
        using semi by (auto simp: slice_tail)
      with semi False show ?thesis by auto
    qed
  qed
qed

lemma skip_initial_no_marker:
  "\<forall>l\<in>set doc. \<not> Contains l ''INPUT @1'' \<Longrightarrow> skip_initial doc vd = Inr (vd, [])"
  by (induction doc) simp_all

lemma skip_initial_dropWhile:
  "skip_initial doc vd = skip_initial (dropWhile (\<lambda>l. \<not> Contains l ''INPUT @1'') doc) vd"
  by (induction doc) simp_all

lemma skip_initial_marker:
  assumes "dropWhile (\<lambda>l. \<not> Contains l ''INPUT @1'') doc = m # rest"
  shows "if well_formed m then (\<exists>vd'. skip_initial doc vd = Inr (vd', rest))
         else (\<exists>e. skip_initial doc vd = Inl e)"
proof -
  from assms have c: "Contains m ''INPUT @1''"
    by (simp add: dropWhile_eq_Cons_conv)
  have s: "skip_initial doc vd = skip_initial (m # rest) vd"
    using skip_initial_dropWhile [of doc vd] by (simp only: assms)
  show ?thesis
  proof (cases "well_formed m")
    case True
    then obtain vd' where "5 \<le> length m" "process (drop 5 m) vd = Inr vd'"
      using well_formed_process [of m vd] by blast
    with c True show ?thesis unfolding s by (simp add: slice_tail)
  next
    case False
    then have "length m < 5 \<or> (\<exists>e. process (drop 5 m) vd = Inl e)"
      using well_formed_process [of m vd] process_total [of "drop 5 m" vd] by auto
    then have "\<exists>e. skip_initial (m # rest) vd = Inl e"
      using c by (auto simp: slice_tail)
    with False show ?thesis unfolding s by simp
  qed
qed

lemma getvinf_fails_iff:
  "(\<exists>e. getvinf doc = Inl e) \<longleftrightarrow> (\<exists>l\<in>set (descriptor_lines doc). \<not> well_formed l)"
proof (cases "dropWhile (\<lambda>l. \<not> Contains l ''INPUT @1'') doc")
  case Nil
  then have "skip_initial doc Map.empty = Inr (Map.empty, [])"
    by (intro skip_initial_no_marker) simp
  moreover have "descriptor_lines doc = []" unfolding descriptor_lines_def Nil by simp
  ultimately show ?thesis by (simp add: getvinf_def)
next
  case (Cons m rest)
  have dl: "descriptor_lines doc = m # takeWhile (\<lambda>l. \<not> HasPrefix l '';'') rest"
    unfolding descriptor_lines_def Cons by simp
  show ?thesis
  proof (cases "well_formed m")
    case True
    with skip_initial_marker [OF Cons, of Map.empty]
    obtain vd' where "skip_initial doc Map.empty = Inr (vd', rest)" by auto
    then have "getvinf doc = scan_descriptors rest vd'" by (simp add: getvinf_def)
    with True scan_descriptors_fails_iff [of rest vd'] show ?thesis
      by (simp add: dl)
  next
    case False
    with skip_initial_marker [OF Cons, of Map.empty]
    obtain e where "skip_initial doc Map.empty = Inl e" by auto
    then have "getvinf doc = Inl e" by (simp add: getvinf_def)
    with False show ?thesis by (simp add: dl)
  qed
qed

lemma getvinf_no_marker:
  "\<forall>l\<in>set doc. \<not> Contains l ''INPUT @1'' \<Longrightarrow> getvinf doc = Inr Map.empty"
  by (simp add: getvinf_def skip_initial_no_marker)

lemma digits_value_nonneg_aux:
  "0 \<le> a \<Longrightarrow> list_all isDigit ds \<Longrightarrow> 0 \<le> foldl (\<lambda>n c. n * 10 + (int (of_char c) - 48)) a ds"
proof (induction ds arbitrary: a)
  case Nil
  then show ?case by simp
next
  case (Cons c cs)
  from Cons.prems have "0 \<le> a * 10 + (int (of_char c) - 48)"
    by (simp add: isDigit_def)
  with Cons show ?case by simp
qed

lemma Atoi_range:
  assumes "Atoi s = Inr n"
  shows "- (2 ^ 63) \<le> n \<and> n < 2 ^ 63"
proof -
  define ds where "ds = (if s \<noteq> [] \<and> (hd s = CHR ''-'' \<or> hd s = CHR ''+'') then tl s else s)"
  from assms have d: "list_all isDigit ds"
    unfolding Atoi_def Let_def ds_def by (auto split: if_splits)
  then have "0 \<le> digits_value ds"
    unfolding digits_value_def by (intro digits_value_nonneg_aux) simp_all
  with assms show ?thesis
    unfolding Atoi_def Let_def ds_def [symmetric] by (auto split: if_splits)
qed

lemma int64_id: "- (2 ^ 63) \<le> x \<Longrightarrow> x < 2 ^ 63 \<Longrightarrow> int64 x = x"
  by (simp add: int64_def)

subsection \<open>Lemmas on the aggregator\<close>







lemma scan_records_append:
  "scan_records pf fadd year ys vd (pre @ post) acc
     = (case scan_records pf fadd year ys vd pre acc of
          Inl e \<Rightarrow> Inl e
        | Inr acc' \<Rightarrow> scan_records pf fadd year ys vd post acc')"
  by (induction pre arbitrary: acc) (auto split: sum.splits)

lemma getpopw_eq:
  "getpopw pf fadd year doc dat =
     (case getvinf doc of
        Inl e \<Rightarrow> Inl e
      | Inr vd \<Rightarrow>
     (case slice (Sprintf_d year) 2 (int (length (Sprintf_d year))) of
        Inl e \<Rightarrow> Inl e
      | Inr ys \<Rightarrow>
     (case dat of
        Inl e \<Rightarrow> Inl ErrInvalid
      | Inr (Inl e) \<Rightarrow> Inl e
      | Inr (Inr (lines, scan_err)) \<Rightarrow>
     (case scan_records pf fadd year ys vd lines (replicate 33 0) of
        Inl e \<Rightarrow> Inl e
      | Inr result \<Rightarrow>
     (case scan_err of
        Some e \<Rightarrow> Inl e
      | None \<Rightarrow> Inr result)))))"
  unfolding getpopw_def os_Open_def gzip_NewReader_def Let_def
  by (auto split: sum.splits option.splits prod.splits)



lemma sample_ext:
  "ext decimal_pf sample_vdef ''119802150012'' ''PEGJA09'' = Inr 1"
  "ext decimal_pf sample_vdef ''119802150012'' ''DOBYY'' = Inr 1980"
  "ext decimal_pf sample_vdef ''119802150012'' ''REGION09'' = Inr 2"
  "ext decimal_pf sample_vdef ''119802150012'' ''PERWT09F'' = Inr 1500"
  "ext decimal_pf sample_vdef ''119802150012'' ''HPEJA09'' = Inr 1"
  "ext decimal_pf sample_vdef ''119802150012'' ''SEX'' = Inr 2"
  "ext decimal_pf sample_vdef ''2 - not covered'' ''PEGJA09'' = Inr 2"
  "ext decimal_pf sample_vdef ''2 - not covered'' ''DOBYY'' = Inl NumError"
  by (simp_all add: ext_def sample_vdef_def slice_def int64_def decimal_pf_def Atoi_def isDigit_def
      digits_value_def)




subsection \<open>The schema extractor\<close>

text \<open>
  Claim C7: on a line of three fields whose position and width are integers,
  \<^verbatim>\<open>process\<close> strips the leading \<open>@\<close> of the position field (every leading \<open>@\<close>, as
  \<^verbatim>\<open>strings.TrimLeft\<close> does) and the leading \<open>$\<close> of the width field, keeps of the width
  what stands before its first point, subtracts 1 from the position (in 64-bit
  arithmetic, which is the exact difference unless the position is the least integer)
  and records the pair under the name, replacing an earlier entry of that name; the
  line \<open>@10 FOO $5\<close> gives \<open>FOO \<mapsto> (9, 5)\<close>.
\<close>

theorem process_three_tokens:
  "(Fields line = [p, n, w] \<longrightarrow>
      Atoi (dropWhile (\<lambda>c. c = CHR ''@'') p) = Inr ip \<longrightarrow>
      Atoi (takeWhile (\<lambda>c. c \<noteq> CHR ''.'') (dropWhile (\<lambda>c. c = CHR ''$'') w)) = Inr iw \<longrightarrow>
      process line vd = Inr (vd(n \<mapsto> (int64 (ip - 1), iw)))
      \<and> (ip \<noteq> - (2 ^ 63) \<longrightarrow> int64 (ip - 1) = ip - 1))
   \<and> process ''@10 FOO $5'' Map.empty = Inr [''FOO'' \<mapsto> (9, 5)]"
proof (intro conjI impI)
  assume f: "Fields line = [p, n, w]"
    and ip: "Atoi (dropWhile (\<lambda>c. c = CHR ''@'') p) = Inr ip"
    and iw: "Atoi (takeWhile (\<lambda>c. c \<noteq> CHR ''.'') (dropWhile (\<lambda>c. c = CHR ''$'') w)) = Inr iw"
  show "process line vd = Inr (vd(n \<mapsto> (int64 (ip - 1), iw)))"
    unfolding process_eq using f ip iw by simp
  assume "ip \<noteq> - (2 ^ 63)"
  with Atoi_range [OF ip] show "int64 (ip - 1) = ip - 1"
    by (intro int64_id) simp_all
next
  show "process ''@10 FOO $5'' Map.empty = Inr [''FOO'' \<mapsto> (9, 5)]"
    by (simp add: process_eq Fields_def isSpace_def Atoi_def isDigit_def digits_value_def int64_def)
qed

theorem process_three_tokens_witness:
  "Fields ''@6   PID   $3.0'' = [''@6'', ''PID'', ''$3.0'']
   \<and> Atoi ''6'' = Inr 6 \<and> Atoi ''3'' = Inr 3
   \<and> process ''@6   PID   $3.0'' [''PID'' \<mapsto> (0, 0)] = Inr [''PID'' \<mapsto> (5, 3)]"
proof -
  have f: "Fields ''@6   PID   $3.0'' = [''@6'', ''PID'', ''$3.0'']"
    by (simp add: Fields_def isSpace_def)
  have a: "Atoi ''6'' = Inr 6" "Atoi ''3'' = Inr 3"
    by (simp_all add: Atoi_def isDigit_def digits_value_def)
  have "process ''@6   PID   $3.0'' [''PID'' \<mapsto> (0, 0)]
          = Inr ([''PID'' \<mapsto> (0, 0)](''PID'' \<mapsto> (int64 (6 - 1), 3)))"
    using process_three_tokens [of "''@6   PID   $3.0''" "''@6''" "''PID''" "''$3.0''" 6 3
        "[''PID'' \<mapsto> (0, 0)]"] f a
    by simp
  then have "process ''@6   PID   $3.0'' [''PID'' \<mapsto> (0, 0)] = Inr [''PID'' \<mapsto> (5, 3)]"
    by (simp add: int64_def)
  with f a show ?thesis by simp
qed

text \<open>
  Claim C3, as stated: the extraction fails for every document in which the
  section-start marker does not occur.  This fails: on a document without the marker
  \<^verbatim>\<open>getvinf\<close> returns the empty map.
\<close>

theorem getvinf_no_marker_counterexample:
  "\<not> Contains ''DATA H129;'' ''INPUT @1'' \<and> \<not> Contains ''@1 DUID'' ''INPUT @1''
   \<and> getvinf [''DATA H129;'', ''@1 DUID''] = Inr Map.empty
   \<and> \<not> (\<exists>e. getvinf [''DATA H129;'', ''@1 DUID''] = Inl e)"
  by (simp add: getvinf_def HasPrefix_def)

text \<open>
  Claim C3, amended: on a document that is read without an I/O error the extraction
  fails exactly when one of its descriptor lines (the first line with the marker and
  the lines after it up to the first that starts with \<open>;\<close>) is shorter than five
  bytes, or has fewer than three fields after its first five bytes, or has a position
  or width field that is not an integer; a document without the marker yields the empty
  map and no failure.
\<close>

theorem getvinf_fails_exactly:
  "((\<exists>e. getvinf doc = Inl e) \<longleftrightarrow> (\<exists>l\<in>set (descriptor_lines doc). \<not> well_formed l))
   \<and> ((\<forall>l\<in>set doc. \<not> Contains l ''INPUT @1'') \<longrightarrow> getvinf doc = Inr Map.empty)"
  using getvinf_fails_iff [of doc] getvinf_no_marker [of doc] by blast

theorem getvinf_fails_exactly_witness:
  "descriptor_lines [''* layout'', ''INPUT @1 DUID 5.0'', ''      @6 PID'', ''; end'']
     = [''INPUT @1 DUID 5.0'', ''      @6 PID'']
   \<and> well_formed ''INPUT @1 DUID 5.0'' \<and> \<not> well_formed ''      @6 PID''
   \<and> (\<exists>e. getvinf [''* layout'', ''INPUT @1 DUID 5.0'', ''      @6 PID'', ''; end''] = Inl e)
   \<and> \<not> Contains ''* layout'' ''INPUT @1''
   \<and> getvinf [''* layout''] = Inr Map.empty"
proof -
  let ?doc = "[''* layout'', ''INPUT @1 DUID 5.0'', ''      @6 PID'', ''; end'']"
  have d: "descriptor_lines ?doc = [''INPUT @1 DUID 5.0'', ''      @6 PID'']"
    by (simp add: descriptor_lines_def HasPrefix_def)
  have w: "well_formed ''INPUT @1 DUID 5.0''"
    by (simp add: well_formed_def Fields_def isSpace_def is_int_def Atoi_def isDigit_def
        digits_value_def)
  have n: "\<not> well_formed ''      @6 PID''"
    by (simp add: well_formed_def Fields_def isSpace_def)
  have "\<exists>l\<in>set (descriptor_lines ?doc). \<not> well_formed l"
    unfolding d using n by simp
  then have e: "\<exists>e. getvinf ?doc = Inl e"
    using getvinf_fails_exactly [of ?doc] by blast
  have m: "\<not> Contains ''* layout'' ''INPUT @1''"
    by (simp add: HasPrefix_def)
  then have "\<forall>l\<in>set [''* layout'']. \<not> Contains l ''INPUT @1''"
    by simp
  then have g: "getvinf [''* layout''] = Inr Map.empty"
    using getvinf_fails_exactly [of "[''* layout'']"] by blast
  from d w n e m g show ?thesis by blast
qed

text \<open>
  Claim C10: the first five bytes of every descriptor line are dropped before the line
  is split into fields, on the marker line and on each later line that does not start
  with \<open>;\<close>.  A later line that does not start with \<open>;\<close> and has fewer than five bytes
  is a slice out of bounds, a runtime panic: whenever such a line stands among the
  descriptor lines of a document, the extraction fails.
\<close>

theorem short_descriptor_line_fatal:
  "(\<not> HasPrefix line '';'' \<longrightarrow> length line < 5 \<longrightarrow>
      scan_descriptors (line # rest) vd = Inl SliceBounds)
   \<and> (\<not> HasPrefix line '';'' \<longrightarrow> 5 \<le> length line \<longrightarrow>
      scan_descriptors (line # rest) vd
        = (case process (drop 5 line) vd of
             Inl e \<Rightarrow> Inl e
           | Inr vd' \<Rightarrow> scan_descriptors rest vd'))
   \<and> (Contains line ''INPUT @1'' \<longrightarrow>
      skip_initial (line # rest) vd
        = (case process (drop 5 line) vd of
             Inl e \<Rightarrow> Inl e
           | Inr vd' \<Rightarrow> Inr (vd', rest)))
   \<and> (l \<in> set (descriptor_lines doc) \<longrightarrow> length l < 5 \<longrightarrow> (\<exists>e. getvinf doc = Inl e))"
proof (intro conjI impI)
  assume "\<not> HasPrefix line '';''" "length line < 5"
  then show "scan_descriptors (line # rest) vd = Inl SliceBounds"
    by (simp add: slice_tail)
next
  assume "\<not> HasPrefix line '';''" "5 \<le> length line"
  then show "scan_descriptors (line # rest) vd
        = (case process (drop 5 line) vd of
             Inl e \<Rightarrow> Inl e
           | Inr vd' \<Rightarrow> scan_descriptors rest vd')"
    by (simp add: slice_tail)
next
  assume c: "Contains line ''INPUT @1''"
  from Contains_length [OF c] have "5 \<le> length line" by simp
  with c show "skip_initial (line # rest) vd
        = (case process (drop 5 line) vd of
             Inl e \<Rightarrow> Inl e
           | Inr vd' \<Rightarrow> Inr (vd', rest))"
    by (simp add: slice_tail)
next
  assume m: "l \<in> set (descriptor_lines doc)" and "length l < 5"
  then have "\<not> well_formed l"
    by (simp add: well_formed_def)
  with m have "\<exists>l\<in>set (descriptor_lines doc). \<not> well_formed l"
    by (rule rev_bexI)
  then show "\<exists>e. getvinf doc = Inl e"
    by (simp only: getvinf_fails_iff)
qed

theorem short_descriptor_line_fatal_witness:
  "\<not> HasPrefix ''@6'' '';'' \<and> length ''@6'' < 5
   \<and> scan_descriptors [''@6'', '';''] Map.empty = Inl SliceBounds
   \<and> ''@6'' \<in> set (descriptor_lines [''INPUT @1 DUID 5.0'', ''@6'', '';''])
   \<and> (\<exists>e. getvinf [''INPUT @1 DUID 5.0'', ''@6'', '';''] = Inl e)
   \<and> scan_descriptors ['';'', ''@6''] Map.empty = Inr Map.empty"
proof -
  have h: "\<not> HasPrefix ''@6'' '';''" by (simp add: HasPrefix_def)
  have n: "length ''@6'' < 5" by simp
  have s: "scan_descriptors [''@6'', '';''] Map.empty = Inl SliceBounds"
    using short_descriptor_line_fatal [of "''@6''" "['';'']" Map.empty] h n by blast
  have m: "''@6'' \<in> set (descriptor_lines [''INPUT @1 DUID 5.0'', ''@6'', '';''])"
    by (simp add: descriptor_lines_def HasPrefix_def)
  have e: "\<exists>e. getvinf [''INPUT @1 DUID 5.0'', ''@6'', '';''] = Inl e"
    using short_descriptor_line_fatal [of _ _ _ "''@6''" "[''INPUT @1 DUID 5.0'', ''@6'', '';'']"]
      m n by blast
  have t: "scan_descriptors ['';'', ''@6''] Map.empty = Inr Map.empty"
    by (simp add: HasPrefix_def)
  from h n s m e t show ?thesis by blast
qed

subsection \<open>The record classifier\<close>

text \<open>
  Claim C1, as stated: the classifier assigns a stratum in \<open>[1,32]\<close> if and only if
  all five exclusion checks pass.  This fails: a record with insurance 1, sex 1, birth
  year 1980, region code 9 and employment-relation code 1 passes the five checks and
  gets the stratum 65.
\<close>

theorem classify_in_range_counterexample:
  "spec_checks_pass 1 1 1980 9 1 \<and> classify 1 1 1980 9 1 = Some 65
     \<and> \<not> (\<exists>k. classify 1 1 1980 9 1 = Some k \<and> 1 \<le> k \<and> k \<le> 32)"
  by (simp add: spec_checks_pass_def classify_def checks_def age_band_def stratum_of_def trunc_def)

text \<open>
  Claim C1, amended: the classifier assigns a stratum (it does not exclude the record)
  if and only if all five exclusion checks pass; when moreover the region code is one
  of 1, 2, 3, 4 and the employment-relation code one of 1, 2, the stratum is in
  \<open>[1,32]\<close>.
\<close>

theorem classify_iff_checks:
  "(classify insur female dobyy region emprel \<noteq> None
      \<longleftrightarrow> spec_checks_pass insur female dobyy region emprel)
   \<and> (spec_checks_pass insur female dobyy region emprel
        \<longrightarrow> region \<in> {1, 2, 3, 4} \<longrightarrow> emprel \<in> {1, 2}
        \<longrightarrow> (\<exists>k. classify insur female dobyy region emprel = Some k \<and> 1 \<le> k \<and> k \<le> 32))"
proof (intro conjI impI)
  show "classify insur female dobyy region emprel \<noteq> None
      \<longleftrightarrow> spec_checks_pass insur female dobyy region emprel"
    by (rule classify_some_iff)
next
  assume p: "spec_checks_pass insur female dobyy region emprel"
    and r: "region \<in> {1, 2, 3, 4}" and e: "emprel \<in> {1, 2}"
  from p have i: "insur = 1" and f: "female = 1 \<or> female = 2" and d: "1944 \<le> dobyy" "dobyy < 1994"
    by (simp_all add: spec_checks_pass_def)
  from d have "age_band dobyy = Age 1 \<or> age_band dobyy = Age 0"
    by (simp add: age_band_cases)
  then obtain age where a: "age_band dobyy = Age age"
    by blast
  have c: "classify insur female dobyy region emprel
             = Some (stratum_of (female - 1) (emprel - 1) age (region - 1))"
    using i f a r e by (auto simp: classify_def checks_value)
  have "1 \<le> stratum_of (female - 1) (emprel - 1) age (region - 1)
        \<and> stratum_of (female - 1) (emprel - 1) age (region - 1) \<le> 32"
  proof (rule stratum_in_range)
    show "female - 1 = 0 \<or> female - 1 = 1" using f by auto
    show "emprel - 1 = 0 \<or> emprel - 1 = 1" using e by auto
    show "age = 0 \<or> age = 1" using a by (rule age_band_Age)
    show "region - 1 = 0 \<or> region - 1 = 1 \<or> region - 1 = 2 \<or> region - 1 = 3" using r by auto
  qed
  with c show "\<exists>k. classify insur female dobyy region emprel = Some k \<and> 1 \<le> k \<and> k \<le> 32"
    by simp
qed

theorem classify_iff_checks_witness:
  "spec_checks_pass 1 2 1980 2 1 \<and> (2::real) \<in> {1, 2, 3, 4} \<and> (1::real) \<in> {1, 2}
     \<and> classify 1 2 1980 2 1 = Some 10"
proof -
  have p: "spec_checks_pass 1 2 1980 2 1" by (simp add: spec_checks_pass_def)
  have v: "classify 1 2 1980 2 1 = Some 10"
    by (simp add: classify_def checks_def age_band_def stratum_of_def trunc_def)
  from classify_iff_checks [of 1 2 1980 2 1] p
  have "\<exists>k. classify 1 2 1980 2 1 = Some k \<and> 1 \<le> k \<and> k \<le> 32" by simp
  with p v show ?thesis by simp
qed

text \<open>
  Claim C2, as stated: the age-band cutoffs are computed from the reference point of
  the year processed.  This fails: for the year 2015 a birth year 1945 is below
  \<open>2015 - 65\<close>, too old, while the code puts it in age stratum 1.
\<close>

theorem age_band_year_counterexample:
  "age_band 1945 = Age 1 \<and> spec_age_band 2015 1945 = TooOld
     \<and> age_band 1945 \<noteq> spec_age_band 2015 1945"
  by (simp add: age_band_def spec_age_band_def)

text \<open>
  Claim C2, amended: for every year processed the cutoffs are those of the reference
  year 2009, the constants \<open>2009 - 65 = 1944\<close>, \<open>2012 - 45 = 1967\<close> and
  \<open>2012 - 18 = 1994\<close>: a birth year below 1944 is excluded as too old, below 1967
  gives age stratum 1, below 1994 age stratum 0, and otherwise the record is excluded
  as too young.
\<close>

theorem age_band_fixed_cutoffs:
  "age_band dobyy = spec_age_band 2009 dobyy
   \<and> age_band dobyy = (if dobyy < 1944 then TooOld else if dobyy < 1967 then Age 1
                        else if dobyy < 1994 then Age 0 else TooYoung)"
  by (simp add: age_band_def spec_age_band_def)

theorem age_band_fixed_cutoffs_witness:
  "age_band 1945 = spec_age_band 2009 1945 \<and> age_band 1945 = Age 1
     \<and> age_band 2000 = TooYoung \<and> age_band 1940 = TooOld \<and> age_band 1980 = Age 0"
  using age_band_fixed_cutoffs [of 1945] age_band_fixed_cutoffs [of 2000]
    age_band_fixed_cutoffs [of 1940] age_band_fixed_cutoffs [of 1980]
  by (simp add: spec_age_band_def)

text \<open>
  Claim C5: the employment-relation test reads the raw decoded value.  For a record
  that passes the other checks, the record is excluded exactly when the raw value is
  -1; any other raw value is normalized by subtracting 1, so that the raw value 0 is
  not excluded and enters the stratum as -1.
\<close>

theorem emprel_check_before_normalization:
  "(female = 1 \<or> female = 2) \<longrightarrow> age_band dobyy = Age age \<longrightarrow> 0 \<le> region \<longrightarrow>
     (classify 1 female dobyy region emprel = None \<longleftrightarrow> emprel = - 1)
     \<and> (emprel \<noteq> - 1 \<longrightarrow>
          classify 1 female dobyy region emprel
            = Some (stratum_of (female - 1) (emprel - 1) age (region - 1)))"
  by (auto simp: classify_def checks_def Let_def)

theorem emprel_check_before_normalization_witness:
  "age_band 1980 = Age 0 \<and> classify 1 2 1980 2 (- 1) = None
     \<and> classify 1 2 1980 2 0 = Some (stratum_of 1 (- 1) 0 1) \<and> stratum_of 1 (- 1) 0 1 = 8"
proof -
  have a: "age_band 1980 = Age 0" by (simp add: age_band_def)
  have s: "stratum_of 1 (- 1) 0 1 = 8" by (simp add: stratum_of_def trunc_def)
  from emprel_check_before_normalization [of 2 1980 0 2 "- 1"] a
  have n: "classify 1 2 1980 2 (- 1) = None" by simp
  from emprel_check_before_normalization [of 2 1980 0 2 0] a
  have z: "classify 1 2 1980 2 0 = Some (stratum_of 1 (- 1) 0 1)" by simp
  from a n z s show ?thesis by simp
qed

subsection \<open>The encoding of the strata\<close>

text \<open>
  Claim C8: for every integer \<open>s\<close> in \<open>[1,32]\<close>, decoding \<open>s\<close> as the header comment
  says and encoding the result with the expression of the source gives \<open>s\<close> again, and
  the encoding is a bijection from \<open>{0,1} \<times> {0,1} \<times> {0,1} \<times> {0,1,2,3}\<close> onto
  \<open>{1,...,32}\<close>.
\<close>

theorem stratum_roundtrip_bijection:
  "(\<forall>s\<in>{1..32}. stratum_of (real_of_int (wgtkey_female s)) (real_of_int (wgtkey_emprel s))
        (real_of_int (wgtkey_age s)) (real_of_int (wgtkey_region s)) = s)
   \<and> bij_betw encode ({0, 1} \<times> {0, 1} \<times> {0, 1} \<times> {0, 1, 2, 3}) {1..32}"
proof
  show "\<forall>s\<in>{1..32}. stratum_of (real_of_int (wgtkey_female s)) (real_of_int (wgtkey_emprel s))
        (real_of_int (wgtkey_age s)) (real_of_int (wgtkey_region s)) = s"
    using encode_decode by (simp add: encode_def decode_def)
  show "bij_betw encode ({0, 1} \<times> {0, 1} \<times> {0, 1} \<times> {0, 1, 2, 3}) {1..32}"
  proof (rule bij_betw_byWitness [where f' = decode])
    show "\<forall>t\<in>{0, 1} \<times> {0, 1} \<times> {0, 1} \<times> {0, 1, 2, 3}. decode (encode t) = t"
      by (intro ballI decode_encode)
    show "\<forall>s\<in>{1..32}. encode (decode s) = s"
      using encode_decode by simp
    show "encode ` ({0, 1} \<times> {0, 1} \<times> {0, 1} \<times> {0, 1, 2, 3}) \<subseteq> {1..32}"
      by (rule image_subsetI) (rule encode_range)
    show "decode ` {1..32} \<subseteq> {0, 1} \<times> {0, 1} \<times> {0, 1} \<times> {0, 1, 2, 3}"
    proof (rule image_subsetI)
      fix s :: int
      assume "s \<in> {1..32}"
      then have "1 \<le> s" "s \<le> 32" by simp_all
      then show "decode s \<in> {0, 1} \<times> {0, 1} \<times> {0, 1} \<times> {0, 1, 2, 3}"
        by (rule decode_range)
    qed
  qed
qed

theorem stratum_roundtrip_bijection_witness:
  "(10::int) \<in> {1..32} \<and> decode 10 = (1, 0, 0, 1) \<and> stratum_of 1 0 0 1 = 10"
proof -
  have m: "(10::int) \<in> {1..32}" by simp
  have d: "decode 10 = (1, 0, 0, 1)"
    using decode_nonneg [of 9] by simp
  from stratum_roundtrip_bijection m
  have "stratum_of (real_of_int (wgtkey_female 10)) (real_of_int (wgtkey_emprel 10))
        (real_of_int (wgtkey_age 10)) (real_of_int (wgtkey_region 10)) = 10"
    by blast
  with m d show ?thesis by (simp add: decode_def)
qed

subsection \<open>The aggregator\<close>



text \<open>
  Claim C9: when the insurance field of a record decodes to a value other than 1, the
  loop body leaves the vector as it is and raises nothing, whatever the rest of the
  line holds: no other field is decoded.  Any line with the same insurance field is
  processed alike, and the stream gives the same result with the record as without it.
\<close>

theorem insurance_gate_first:
  "ext pf vd line (''PEGJA'' @ ys) = Inr x \<longrightarrow> x \<noteq> 1 \<longrightarrow>
     record_step pf fadd year ys vd acc line = Inr acc
     \<and> (\<forall>line'. ext pf vd line' (''PEGJA'' @ ys) = ext pf vd line (''PEGJA'' @ ys)
           \<longrightarrow> record_step pf fadd year ys vd acc line' = record_step pf fadd year ys vd acc line)
     \<and> scan_records pf fadd year ys vd (pre @ line # post) acc
         = scan_records pf fadd year ys vd (pre @ post) acc"
proof (intro impI conjI allI)
  assume x: "ext pf vd line (''PEGJA'' @ ys) = Inr x" and n: "x \<noteq> 1"
  then show st: "record_step pf fadd year ys vd acc line = Inr acc"
    by (simp add: record_step_def)
  show "record_step pf fadd year ys vd acc line' = record_step pf fadd year ys vd acc line"
    if "ext pf vd line' (''PEGJA'' @ ys) = ext pf vd line (''PEGJA'' @ ys)" for line'
    using that x n by (simp add: record_step_def)
  have "\<And>a. record_step pf fadd year ys vd a line = Inr a"
    using x n by (simp add: record_step_def)
  then show "scan_records pf fadd year ys vd (pre @ line # post) acc
         = scan_records pf fadd year ys vd (pre @ post) acc"
    by (simp add: scan_records_append split: sum.splits)
qed

theorem insurance_gate_first_witness:
  "ext decimal_pf sample_vdef ''2 - not covered'' (''PEGJA'' @ ''09'') = Inr 2
   \<and> ext decimal_pf sample_vdef ''2 - not covered'' ''DOBYY'' = Inl NumError
   \<and> record_step decimal_pf exact_add 2009 ''09'' sample_vdef (replicate 33 0) ''2 - not covered''
       = Inr (replicate 33 0)
   \<and> scan_records decimal_pf exact_add 2009 ''09'' sample_vdef [''2 - not covered''] (replicate 33 0)
       = Inr (replicate 33 0)"
proof -
  have x: "ext decimal_pf sample_vdef ''2 - not covered'' (''PEGJA'' @ ''09'') = Inr 2"
    by (simp add: sample_ext)
  note t = insurance_gate_first [where pf = decimal_pf and fadd = exact_add and vd = sample_vdef
      and line = "''2 - not covered''" and ys = "''09''" and x = 2 and year = 2009
      and acc = "replicate 33 0" and pre = "[]" and post = "[]"]
  from t x have s: "record_step decimal_pf exact_add 2009 ''09'' sample_vdef (replicate 33 0)
      ''2 - not covered'' = Inr (replicate 33 0)"
    by simp
  from t x have "scan_records decimal_pf exact_add 2009 ''09'' sample_vdef ([] @ ''2 - not covered'' # [])
      (replicate 33 0) = scan_records decimal_pf exact_add 2009 ''09'' sample_vdef ([] @ []) (replicate 33 0)"
    by simp
  then have c: "scan_records decimal_pf exact_add 2009 ''09'' sample_vdef [''2 - not covered'']
      (replicate 33 0) = Inr (replicate 33 0)"
    by simp
  from x sample_ext(8) s c show ?thesis by blast
qed

text \<open>
  Claim C4 on the code: when \<^verbatim>\<open>os.Open\<close> fails, the test \<^verbatim>\<open>err != err\<close> is never true,
  so the error of \<^verbatim>\<open>os.Open\<close> is not raised; the run goes on with a nil file and ends
  in the error of \<^verbatim>\<open>gzip.NewReader\<close> on it, which does not name the file.  An invalid
  gzip header and a read error of the stream are raised as they are.
\<close>

theorem getpopw_open_error_not_raised:
  "getpopw pf fadd 2009 [] (Inl (PathError ''/nfs/kshedden/MEPS/data/2009/h129.dat.gz'')) = Inl ErrInvalid
   \<and> getpopw pf fadd 2009 [] (Inr (Inl GzipError)) = Inl GzipError
   \<and> getpopw pf fadd 2009 [] (Inr (Inr ([], Some ReadError))) = Inl ReadError"
  by (simp add: getpopw_eq getvinf_def Sprintf_d_def nat_digits.simps digit_char_def slice_def)

theorem getpopw_open_error_not_raised_witness:
  "getpopw decimal_pf exact_add 2009 []
      (Inl (PathError ''/nfs/kshedden/MEPS/data/2009/h129.dat.gz'')) = Inl ErrInvalid
   \<and> getpopw decimal_pf exact_add 2009 []
      (Inl (PathError ''/nfs/kshedden/MEPS/data/2009/h129.dat.gz''))
        \<noteq> Inl (PathError ''/nfs/kshedden/MEPS/data/2009/h129.dat.gz'')"
  using getpopw_open_error_not_raised [of decimal_pf exact_add] by simp

end
